theory Spec2Isabelle
  imports Complex_Main "HOL-Library.Word" "HOL-Library.Sublist"
begin

section \<open>Type codes (internal/handlers/common/typecode.go)\<close>

text \<open>
  \<open>type typeCode int32\<close>: a BSON type code is a signed 32-bit integer. It is a 32-bit
  word here, read as two's complement by \<open>sint\<close>, so \<open>typeCode(-1)\<close> and
  \<open>typeCode(-128)\<close> are the words \<open>- 1\<close> and \<open>- 128\<close>.
\<close>

type_synonym int32 = "32 word"
type_synonym typeCode = "32 word"

definition typeCodeDouble :: typeCode where "typeCodeDouble = 1"
definition typeCodeString :: typeCode where "typeCodeString = 2"
definition typeCodeObject :: typeCode where "typeCodeObject = 3"
definition typeCodeArray :: typeCode where "typeCodeArray = 4"
definition typeCodeBinData :: typeCode where "typeCodeBinData = 5"
definition typeCodeObjectID :: typeCode where "typeCodeObjectID = 7"
definition typeCodeBool :: typeCode where "typeCodeBool = 8"
definition typeCodeDate :: typeCode where "typeCodeDate = 9"
definition typeCodeNull :: typeCode where "typeCodeNull = 10"
definition typeCodeRegex :: typeCode where "typeCodeRegex = 11"
definition typeCodeInt :: typeCode where "typeCodeInt = 16"
definition typeCodeTimestamp :: typeCode where "typeCodeTimestamp = 17"
definition typeCodeLong :: typeCode where "typeCodeLong = 18"
text \<open>Not implemented.\<close>
definition typeCodeDecimal :: typeCode where "typeCodeDecimal = 19"
definition typeCodeMinKey :: typeCode where "typeCodeMinKey = - 1"
definition typeCodeMaxKey :: typeCode where "typeCodeMaxKey = 127"
text \<open>Not an actual type code: \<open>number\<close> matches double, int and long.\<close>
definition typeCodeNumber :: typeCode where "typeCodeNumber = - 128"

subsection \<open>Decimal formatting\<close>

text \<open>
  \<open>fmt.Sprintf\<close> with the verbs \<open>%v\<close> and \<open>%d\<close> prints an \<open>int32\<close> in decimal, with a
  leading minus sign for a negative value. \<open>formatNat\<close> gives the digits of a natural
  number, most significant first; \<open>formatInt\<close> adds the sign; \<open>formatInt32\<close> reads the
  word as a signed value first.
\<close>

fun formatNat :: "nat \<Rightarrow> string" where
  "formatNat n =
     (if n < 10 then [''0123456789'' ! n]
      else formatNat (n div 10) @ [''0123456789'' ! (n mod 10)])"

declare formatNat.simps [simp del]

definition formatInt :: "int \<Rightarrow> string" where
  "formatInt i = (if i < 0 then ''-'' @ formatNat (nat (- i)) else formatNat (nat i))"

definition formatInt32 :: "int32 \<Rightarrow> string" where
  "formatInt32 code = formatInt (sint code)"

text \<open>
  Reading a decimal string back, to state that the formatted text is the decimal
  notation of the number: \<open>parseInt (formatInt i) = i\<close> (lemma \<open>parseInt_formatInt\<close>).
\<close>

definition digitValue :: "char \<Rightarrow> nat" where
  "digitValue ch = of_char ch - 48"

definition decimalValue :: "string \<Rightarrow> nat" where
  "decimalValue s = foldl (\<lambda>acc ch. 10 * acc + digitValue ch) 0 s"

definition parseInt :: "string \<Rightarrow> int" where
  "parseInt s =
     (case s of
        [] \<Rightarrow> 0
      | ch # rest \<Rightarrow> if ch = CHR ''-'' then - int (decimalValue rest) else int (decimalValue s))"

subsection \<open>Errors\<close>

text \<open>
  The two error codes that \<open>newTypeCode\<close> uses, and the error value that
  \<open>NewErrorMsg(code, msg)\<close> builds: an error code with its message.
\<close>

datatype ErrorCode = ErrBadValue | ErrNotImplemented

datatype error = NewErrorMsg ErrorCode string

fun errorCode :: "error \<Rightarrow> ErrorCode" where
  "errorCode (NewErrorMsg c m) = c"

fun errorMsg :: "error \<Rightarrow> string" where
  "errorMsg (NewErrorMsg c m) = m"

subsection \<open>newTypeCode\<close>

text \<open>
  The source returns a pair \<open>(typeCode, error)\<close>; a \<open>nil\<close> error is \<open>None\<close>. The three
  branches of the \<open>switch\<close> are kept in the source's order.
\<close>

definition implementedCodes :: "typeCode list" where
  "implementedCodes =
     [typeCodeDouble, typeCodeString, typeCodeObject, typeCodeArray,
      typeCodeBinData, typeCodeObjectID, typeCodeBool, typeCodeDate,
      typeCodeNull, typeCodeRegex, typeCodeInt, typeCodeTimestamp, typeCodeLong,
      typeCodeNumber]"

definition notImplementedCodes :: "typeCode list" where
  "notImplementedCodes = [typeCodeDecimal, typeCodeMinKey, typeCodeMaxKey]"

definition newTypeCode :: "int32 \<Rightarrow> typeCode \<times> error option" where
  "newTypeCode code =
     (let c = code in
      if c \<in> set implementedCodes then (c, None)
      else if c \<in> set notImplementedCodes then
        (0, Some (NewErrorMsg ErrNotImplemented
                    (''Type code '' @ formatInt32 code @ '' not implemented'')))
      else
        (0, Some (NewErrorMsg ErrBadValue
                    (''Invalid numerical type code: '' @ formatInt32 code))))"

subsection \<open>The generated String method and the alias table\<close>

text \<open>
  Modelled from the spec: the method \<open>typeCode.String\<close> (the spec's \<open>aliasFor\<close>) is
  generated by \<open>stringer -linecomment -type typeCode\<close> into a file that is not among the
  sources. With \<open>-linecomment\<close> the name of a constant is its line comment in the \<open>const\<close>
  block above (\<open>// double\<close>, \<open>// string\<close>, ...), which are the aliases that the spec
  lists; for a value that is no declared constant the generated method returns
  \<open>typeCode(N)\<close> with \<open>N\<close> in decimal.
\<close>

definition typeCode_String :: "typeCode \<Rightarrow> string" where
  "typeCode_String i =
     (if i = typeCodeDouble then ''double''
      else if i = typeCodeString then ''string''
      else if i = typeCodeObject then ''object''
      else if i = typeCodeArray then ''array''
      else if i = typeCodeBinData then ''binData''
      else if i = typeCodeObjectID then ''objectId''
      else if i = typeCodeBool then ''bool''
      else if i = typeCodeDate then ''date''
      else if i = typeCodeNull then ''null''
      else if i = typeCodeRegex then ''regex''
      else if i = typeCodeInt then ''int''
      else if i = typeCodeTimestamp then ''timestamp''
      else if i = typeCodeLong then ''long''
      else if i = typeCodeDecimal then ''decimal''
      else if i = typeCodeMinKey then ''minKey''
      else if i = typeCodeMaxKey then ''maxKey''
      else if i = typeCodeNumber then ''number''
      else ''typeCode('' @ formatInt32 i @ '')'')"

text \<open>
  \<open>var aliasToTypeCode = map[string]typeCode{}\<close> starts empty; \<open>init\<close> runs once and
  stores \<open>aliasToTypeCode[i.String()] = i\<close> for each code of its list, in order. The Go
  map is a partial function from strings to codes; \<open>init\<close> takes the map and returns
  the updated one.
\<close>

definition init :: "(string \<rightharpoonup> typeCode) \<Rightarrow> (string \<rightharpoonup> typeCode)" where
  "init m =
     foldl (\<lambda>m i. m(typeCode_String i \<mapsto> i)) m
       [typeCodeDouble, typeCodeString, typeCodeObject, typeCodeArray,
        typeCodeBinData, typeCodeObjectID, typeCodeBool, typeCodeDate, typeCodeNull,
        typeCodeRegex, typeCodeInt, typeCodeTimestamp, typeCodeLong, typeCodeNumber]"

definition aliasToTypeCode :: "string \<rightharpoonup> typeCode" where
  "aliasToTypeCode = init Map.empty"

text \<open>A string is lowercase when it has no capital letter \<open>A\<close> to \<open>Z\<close>.\<close>

definition isUpper :: "char \<Rightarrow> bool" where
  "isUpper ch = (65 \<le> (of_char ch :: nat) \<and> (of_char ch :: nat) \<le> 90)"

definition isLower :: "char \<Rightarrow> bool" where
  "isLower ch = (97 \<le> (of_char ch :: nat) \<and> (of_char ch :: nat) \<le> 122)"

definition isLowercase :: "string \<Rightarrow> bool" where
  "isLowercase s = list_all (\<lambda>ch. \<not> isUpper ch) s"

text \<open>
  Modelled from the spec: the aliases of the string alias table, as the spec's section
  on external interfaces lists them.
\<close>

definition protocolNames :: "string list" where
  "protocolNames =
     [''double'', ''string'', ''object'', ''array'', ''binData'', ''objectId'', ''bool'',
      ''date'', ''null'', ''regex'', ''int'', ''timestamp'', ''long'', ''number'']"

section \<open>Values and the homogeneity check\<close>

subsection \<open>64-bit floats\<close>

text \<open>
  A \<open>float64\<close> is a finite number, an infinity or a NaN. The finite ones are rational
  numbers; the type below has every rational as a finite value, which includes all
  the representable ones, and it does not tell \<open>-0\<close> from \<open>+0\<close>, which compare equal
  in Go. The operations follow the documentation of Go's \<open>math\<close> package:
  \<open>math.Trunc\<close> drops the fractional part and returns an infinity or a NaN unchanged,
  \<open>math.IsNaN\<close> and \<open>math.IsInf\<close> test the special values (\<open>IsInf(f, 0)\<close> accepts both
  infinities), and the comparison \<open>!=\<close> is true whenever an operand is NaN.
\<close>

datatype float64 = Finite rat | PosInf | NegInf | NaN

fun Trunc :: "float64 \<Rightarrow> float64" where
  "Trunc (Finite r) = Finite (of_int (if r < 0 then \<lceil>r\<rceil> else \<lfloor>r\<rfloor>))"
| "Trunc PosInf = PosInf"
| "Trunc NegInf = NegInf"
| "Trunc NaN = NaN"

fun IsNaN :: "float64 \<Rightarrow> bool" where
  "IsNaN NaN = True"
| "IsNaN f = False"

fun IsInf :: "float64 \<Rightarrow> int \<Rightarrow> bool" where
  "IsInf PosInf sign = (sign \<ge> 0)"
| "IsInf NegInf sign = (sign \<le> 0)"
| "IsInf f sign = False"

fun float64_ne :: "float64 \<Rightarrow> float64 \<Rightarrow> bool" where
  "float64_ne NaN g = True"
| "float64_ne f NaN = True"
| "float64_ne f g = (f \<noteq> g)"

definition float64_eq :: "float64 \<Rightarrow> float64 \<Rightarrow> bool" where
  "float64_eq f g = (\<not> float64_ne f g)"

subsection \<open>Values\<close>

text \<open>
  An element of a \<open>types.Array\<close> has the Go type \<open>any\<close>. The type switch of
  \<open>hasSameTypeElements\<close> names thirteen dynamic types; \<open>Other\<close> stands for a value of
  any other dynamic type, tagged with the name of that type.
\<close>

datatype "value" =
    Document "(string \<times> value) list"
  | Array "value list"
  | Float64 float64
  | String string
  | Binary "8 word" "8 word list"
  | ObjectID "8 word list"
  | Bool bool
  | Time int
  | Null
  | Regex string string
  | Int32 "32 word"
  | Timestamp "64 word"
  | Int64 "64 word"
  | Other string

type_synonym document = "(string \<times> value) list"

text \<open>
  The body of the type switch: the label assigned to \<open>cur\<close>, or \<open>None\<close> in the
  \<open>default\<close> branch, where the function returns \<open>false\<close> at once.
\<close>

fun elementLabel :: "value \<Rightarrow> string option" where
  "elementLabel (Document d) = Some ''object''"
| "elementLabel (Array a) = Some ''array''"
| "elementLabel (Float64 element) =
     (if float64_ne element (Trunc element) \<or> IsNaN element \<or> IsInf element 0
      then Some ''double'' else Some ''int'')"
| "elementLabel (String s) = Some ''string''"
| "elementLabel (Binary st b) = Some ''binData''"
| "elementLabel (ObjectID b) = Some ''objectId''"
| "elementLabel (Bool b) = Some ''bool''"
| "elementLabel (Time t) = Some ''date''"
| "elementLabel Null = Some ''null''"
| "elementLabel (Regex p opts) = Some ''regex''"
| "elementLabel (Int32 n) = Some ''int''"
| "elementLabel (Timestamp t) = Some ''timestamp''"
| "elementLabel (Int64 n) = Some ''int''"
| "elementLabel (Other t) = None"

text \<open>The thirteen kinds that the type switch names.\<close>

fun recognized :: "value \<Rightarrow> bool" where
  "recognized (Other t) = False"
| "recognized v = True"

subsection \<open>hasSameTypeElements\<close>

text \<open>
  A \<open>types.Array\<close> is the list of its elements. \<open>array.Get(i)\<close> returns an error for an
  index out of range, and \<open>must.NotFail\<close> panics on an error: the panic is the result
  \<open>None\<close> of the loop, a returned boolean is \<open>Some b\<close>. The loop
  \<open>for i := 0; i < array.Len(); i++\<close> is the recursion on \<open>i\<close>, with the variable
  \<open>prev\<close> passed along.
\<close>

definition Len :: "value list \<Rightarrow> nat" where
  "Len array = length array"

definition Get :: "value list \<Rightarrow> nat \<Rightarrow> string + value" where
  "Get array i = (if i < length array then Inr (array ! i) else Inl ''index out of bounds'')"

function hasSameTypeElements_loop :: "value list \<Rightarrow> nat \<Rightarrow> string \<Rightarrow> bool option" where
  "hasSameTypeElements_loop array i prev =
     (if i < Len array then
        (case Get array i of
           Inl err \<Rightarrow> None
         | Inr element \<Rightarrow>
             (case elementLabel element of
                None \<Rightarrow> Some False
              | Some cur \<Rightarrow>
                  if prev = '''' then hasSameTypeElements_loop array (i + 1) cur
                  else if prev \<noteq> cur then Some False
                  else hasSameTypeElements_loop array (i + 1) prev))
      else Some True)"
  by pat_completeness auto
termination
  by (relation "measure (\<lambda>(array, i, prev). Len array - i)") auto

declare hasSameTypeElements_loop.simps [simp del]

definition hasSameTypeElements :: "value list \<Rightarrow> bool option" where
  "hasSameTypeElements array = hasSameTypeElements_loop array 0 ''''"

text \<open>
  The same scan written on the list of the elements that remain, for the proofs: the loop
  at index \<open>i\<close> computes \<open>sameLabelFrom prev (drop i array)\<close> (lemma
  \<open>loop_sameLabelFrom\<close> below).
\<close>

fun sameLabelFrom :: "string \<Rightarrow> value list \<Rightarrow> bool" where
  "sameLabelFrom prev [] = True"
| "sameLabelFrom prev (x # xs) =
     (case elementLabel x of
        None \<Rightarrow> False
      | Some cur \<Rightarrow>
          if prev = '''' then sameLabelFrom cur xs
          else if prev \<noteq> cur then False
          else sameLabelFrom prev xs)"

section \<open>Predicates\<close>

subsection \<open>The predicate tree and its evaluation\<close>

text \<open>
  Modelled from the spec: the predicate model, the evaluator and the compiler are not
  among the sources (only the handler test that queries with \<open>$not\<close> and \<open>$nor\<close> is).
  The node kinds are those of the spec's data model: Comparison(field path, operator,
  operand), Membership(field path, in or nin, operand values), Pattern(field path,
  regex pattern, option flags), LogicalAnd, LogicalOr and LogicalNor over a list of
  children, and Negation of one child.
\<close>

datatype cmpOp = Eq | Ne | Gt | Gte | Lt | Lte

datatype memMode = In | Nin

datatype predicate =
    Comparison string cmpOp "value"
  | Membership string memMode "value list"
  | Pattern string string string
  | LogicalAnd "predicate list"
  | LogicalOr "predicate list"
  | LogicalNor "predicate list"
  | Negation predicate

text \<open>
  Modelled from the spec: the evaluator. \<open>$and\<close> is the conjunction of the children
  (true when there is none), \<open>$or\<close> their disjunction (false when there is none),
  \<open>$nor\<close> the negation of \<open>$or\<close>, and \<open>$not\<close> inverts the result of its child. What a
  comparison, a membership test or a pattern test yields on a document depends on
  field paths, cross-type equality and regular expressions; it is the parameter
  \<open>leaf\<close>, so the theorems hold for every meaning of the three leaf kinds.
\<close>

fun eval :: "(predicate \<Rightarrow> document \<Rightarrow> bool) \<Rightarrow> predicate \<Rightarrow> document \<Rightarrow> bool" where
  "eval leaf (LogicalAnd children) D = list_all (\<lambda>c. eval leaf c D) children"
| "eval leaf (LogicalOr children) D = list_ex (\<lambda>c. eval leaf c D) children"
| "eval leaf (LogicalNor children) D = (\<not> list_ex (\<lambda>c. eval leaf c D) children)"
| "eval leaf (Negation child) D = (\<not> eval leaf child D)"
| "eval leaf p D = leaf p D"

text \<open>\<open>n\<close> nested negations around a predicate.\<close>

fun nestedNot :: "nat \<Rightarrow> predicate \<Rightarrow> predicate" where
  "nestedNot 0 p = p"
| "nestedNot (Suc n) p = Negation (nestedNot n p)"

subsection \<open>Compiling the logical operators of a filter\<close>

text \<open>
  Modelled from the spec: the compiler, at the root of a filter document. A key that
  starts with \<open>$\<close> is a logical operator: \<open>$and\<close>, \<open>$or\<close> and \<open>$nor\<close> expect an array of
  sub-filter documents, each compiled recursively, and \<open>$nor\<close> compiles to
  \<open>Negation (LogicalOr children)\<close>; any other \<open>$\<close> key is an unknown operator, a
  \<open>BadValue\<close> error, as is an operand of the wrong shape. A key that does not start with
  \<open>$\<close> is a field path; what its value compiles to (a literal, a regex, a document of
  operators) is the parameter \<open>field\<close>. The entries of one filter document are combined
  with the implicit AND. An error aborts the compilation of the whole filter.
\<close>

definition isOperatorKey :: "string \<Rightarrow> bool" where
  "isOperatorKey k = (case k of [] \<Rightarrow> False | ch # rest \<Rightarrow> ch = CHR ''$'')"

function compileFilter ::
    "(string \<Rightarrow> value \<Rightarrow> error + predicate) \<Rightarrow> document \<Rightarrow> error + predicate"
  and compileEntries ::
    "(string \<Rightarrow> value \<Rightarrow> error + predicate) \<Rightarrow> document \<Rightarrow> error + predicate list"
  and compileEntry ::
    "(string \<Rightarrow> value \<Rightarrow> error + predicate) \<Rightarrow> string \<Rightarrow> value \<Rightarrow> error + predicate"
  and compileChildren ::
    "(string \<Rightarrow> value \<Rightarrow> error + predicate) \<Rightarrow> value list \<Rightarrow> error + predicate list"
where
  "compileFilter field doc =
     (case compileEntries field doc of
        Inl e \<Rightarrow> Inl e
      | Inr ps \<Rightarrow> Inr (LogicalAnd ps))"
| "compileEntries field [] = Inr []"
| "compileEntries field ((k, v) # rest) =
     (case compileEntry field k v of
        Inl e \<Rightarrow> Inl e
      | Inr p \<Rightarrow>
          (case compileEntries field rest of
             Inl e \<Rightarrow> Inl e
           | Inr ps \<Rightarrow> Inr (p # ps)))"
| "compileEntry field k v =
     (if isOperatorKey k then
        (if k = ''$and'' \<or> k = ''$or'' \<or> k = ''$nor'' then
           (case v of
              Array subs \<Rightarrow>
                (case compileChildren field subs of
                   Inl e \<Rightarrow> Inl e
                 | Inr children \<Rightarrow>
                     Inr (if k = ''$and'' then LogicalAnd children
                          else if k = ''$or'' then LogicalOr children
                          else Negation (LogicalOr children)))
            | _ \<Rightarrow> Inl (NewErrorMsg ErrBadValue (k @ '' needs an array'')))
         else Inl (NewErrorMsg ErrBadValue (''unknown operator: '' @ k)))
      else field k v)"
| "compileChildren field [] = Inr []"
| "compileChildren field (v # vs) =
     (case v of
        Document sub \<Rightarrow>
          (case compileFilter field sub of
             Inl e \<Rightarrow> Inl e
           | Inr p \<Rightarrow>
               (case compileChildren field vs of
                  Inl e \<Rightarrow> Inl e
                | Inr ps \<Rightarrow> Inr (p # ps)))
      | _ \<Rightarrow> Inl (NewErrorMsg ErrBadValue ''a sub-filter needs to be a document''))"
  by pat_completeness auto
termination
  by (relation "measure (\<lambda>x. case x of
          Inl (Inl (field, doc)) \<Rightarrow> 2 * size_list (size_prod (\<lambda>k. 0) size) doc + 1
        | Inl (Inr (field, doc)) \<Rightarrow> 2 * size_list (size_prod (\<lambda>k. 0) size) doc
        | Inr (Inl (field, k, v)) \<Rightarrow> 2 * size v + 1
        | Inr (Inr (field, vs)) \<Rightarrow> 2 * size_list size vs)") auto

section \<open>Properties of the type registry\<close>

lemmas typeCode_defs =
  typeCodeDouble_def typeCodeString_def typeCodeObject_def typeCodeArray_def
  typeCodeBinData_def typeCodeObjectID_def typeCodeBool_def typeCodeDate_def
  typeCodeNull_def typeCodeRegex_def typeCodeInt_def typeCodeTimestamp_def
  typeCodeLong_def typeCodeDecimal_def typeCodeMinKey_def typeCodeMaxKey_def
  typeCodeNumber_def

lemma formatInt32_examples:
  "formatInt32 16 = ''16''" "formatInt32 19 = ''19''" "formatInt32 (- 1) = ''-1''"
  "formatInt32 127 = ''127''" "formatInt32 999 = ''999''" "formatInt32 0 = ''0''"
  "formatInt32 (- 2147483648) = ''-2147483648''"
  by (simp_all add: formatInt32_def formatInt_def formatNat.simps)

subsection \<open>The formatted code is its decimal notation\<close>

lemma digit_char: "d < 10 \<Longrightarrow> digitValue (''0123456789'' ! d) = d"
proof -
  assume "d < 10"
  then have "d \<in> {0, 1, 2, 3, 4, 5, 6, 7, 8, 9}" by auto
  then show ?thesis by (auto simp add: digitValue_def)
qed

lemma decimalValue_snoc: "decimalValue (s @ [ch]) = 10 * decimalValue s + digitValue ch"
  by (simp add: decimalValue_def)

lemma decimalValue_formatNat: "decimalValue (formatNat n) = n"
proof (induction n rule: formatNat.induct)
  case (1 n)
  show ?case
  proof (cases "n < 10")
    case True
    then show ?thesis
      by (subst formatNat.simps) (simp add: decimalValue_def digit_char)
  next
    case False
    have "decimalValue (formatNat n) = 10 * decimalValue (formatNat (n div 10)) + digitValue (''0123456789'' ! (n mod 10))"
      using False by (subst formatNat.simps) (simp add: decimalValue_snoc)
    also have "\<dots> = 10 * (n div 10) + n mod 10"
      using "1.IH" [OF False] by (simp add: digit_char)
    finally show ?thesis by simp
  qed
qed

lemma formatNat_digits: "list_all (\<lambda>ch. ch \<in> set ''0123456789'') (formatNat n)"
proof (induction n rule: formatNat.induct)
  case (1 n)
  have m: "''0123456789'' ! (n mod 10) \<in> set ''0123456789''"
    by (rule nth_mem) simp
  show ?case
  proof (cases "n < 10")
    case True
    then have "''0123456789'' ! n \<in> set ''0123456789''" by (intro nth_mem) simp
    then show ?thesis using True by (subst formatNat.simps) simp
  next
    case False
    then show ?thesis using "1.IH" [OF False] m by (subst formatNat.simps) simp
  qed
qed


lemma formatNat_nonempty: "formatNat n \<noteq> []"
  by (subst formatNat.simps) simp

lemma parseInt_formatInt: "parseInt (formatInt i) = i"
proof (cases "i < 0")
  case True
  then show ?thesis by (simp add: parseInt_def formatInt_def decimalValue_formatNat)
next
  case False
  obtain ch rest where f: "formatNat (nat i) = ch # rest"
    using formatNat_nonempty [of "nat i"] by (cases "formatNat (nat i)") auto
  have "ch \<in> set ''0123456789''"
    using formatNat_digits [of "nat i"] unfolding f by simp
  then have "ch \<noteq> CHR ''-''" by auto
  then have "parseInt (formatNat (nat i)) = int (decimalValue (formatNat (nat i)))"
    unfolding f by (simp add: parseInt_def)
  then show ?thesis using False by (simp add: formatInt_def decimalValue_formatNat)
qed

lemma parseInt_formatInt32: "parseInt (formatInt32 c) = sint c"
  by (simp add: formatInt32_def parseInt_formatInt)

subsection \<open>newTypeCode\<close>

lemma newTypeCode_implemented:
  "c \<in> set implementedCodes \<Longrightarrow> newTypeCode c = (c, None)"
  by (simp add: newTypeCode_def)

lemma newTypeCode_notImplemented:
  "c \<in> set notImplementedCodes \<Longrightarrow>
   newTypeCode c =
     (0, Some (NewErrorMsg ErrNotImplemented
                 (''Type code '' @ formatInt32 c @ '' not implemented'')))"
  by (auto simp add: newTypeCode_def implementedCodes_def notImplementedCodes_def
        typeCode_defs)

lemma newTypeCode_other:
  "c \<notin> set implementedCodes \<Longrightarrow> c \<notin> set notImplementedCodes \<Longrightarrow>
   newTypeCode c =
     (0, Some (NewErrorMsg ErrBadValue (''Invalid numerical type code: '' @ formatInt32 c)))"
  by (simp add: newTypeCode_def)

lemma implementedCodes_set:
  "set implementedCodes = {1, 2, 3, 4, 5, 7, 8, 9, 10, 11, 16, 17, 18, - 128}"
  by (simp add: implementedCodes_def typeCode_defs)

lemma notImplementedCodes_set: "set notImplementedCodes = {19, - 1, 127}"
  by (simp add: notImplementedCodes_def typeCode_defs)

lemma sublist_in_message: "sublist s (pre @ s @ post)"
  by (rule sublist_appendI)

lemma sublist_at_end: "sublist s (pre @ s)"
  using sublist_appendI [of s pre "[]"] by simp

text \<open>
  Claim C1. For every \<open>int32\<close> code \<open>c\<close>: if \<open>c\<close> is one of the implemented or surrogate
  codes 1, 2, 3, 4, 5, 7, 8, 9, 10, 11, 16, 17, 18, -128, then \<open>newTypeCode\<close> returns \<open>c\<close>
  unchanged with no error; if \<open>c\<close> is one of 19, -1, 127, it fails with a
  \<open>NotImplemented\<close> error whose message contains the code in decimal; for every other
  \<open>c\<close> it fails with a \<open>BadValue\<close> error whose message contains the code. The text
  of the code in a message is its signed decimal notation: it reads back as \<open>sint c\<close>.
\<close>

theorem newTypeCode_three_cases:
  "(c \<in> {1, 2, 3, 4, 5, 7, 8, 9, 10, 11, 16, 17, 18, - 128} \<longrightarrow>
      newTypeCode c = (c, None)) \<and>
   (c \<in> {19, - 1, 127} \<longrightarrow>
      (\<exists>msg. newTypeCode c = (0, Some (NewErrorMsg ErrNotImplemented msg)) \<and>
             msg = ''Type code '' @ formatInt32 c @ '' not implemented'' \<and>
             sublist (formatInt32 c) msg)) \<and>
   (c \<notin> {1, 2, 3, 4, 5, 7, 8, 9, 10, 11, 16, 17, 18, - 128, 19, - 1, 127} \<longrightarrow>
      (\<exists>msg. newTypeCode c = (0, Some (NewErrorMsg ErrBadValue msg)) \<and>
             msg = ''Invalid numerical type code: '' @ formatInt32 c \<and>
             sublist (formatInt32 c) msg)) \<and>
   parseInt (formatInt32 c) = sint c"
proof (intro conjI impI)
  assume "c \<in> {1, 2, 3, 4, 5, 7, 8, 9, 10, 11, 16, 17, 18, - 128}"
  then have "c \<in> set implementedCodes" by (simp only: implementedCodes_set)
  then show "newTypeCode c = (c, None)" by (rule newTypeCode_implemented)
next
  assume "c \<in> {19, - 1, 127}"
  then have "c \<in> set notImplementedCodes" by (simp only: notImplementedCodes_set)
  then show "\<exists>msg. newTypeCode c = (0, Some (NewErrorMsg ErrNotImplemented msg)) \<and>
             msg = ''Type code '' @ formatInt32 c @ '' not implemented'' \<and>
             sublist (formatInt32 c) msg"
    using newTypeCode_notImplemented [of c] sublist_in_message by blast
next
  assume "c \<notin> {1, 2, 3, 4, 5, 7, 8, 9, 10, 11, 16, 17, 18, - 128, 19, - 1, 127}"
  then have "c \<notin> set implementedCodes" "c \<notin> set notImplementedCodes"
    unfolding implementedCodes_set notImplementedCodes_set by auto
  then show "\<exists>msg. newTypeCode c = (0, Some (NewErrorMsg ErrBadValue msg)) \<and>
             msg = ''Invalid numerical type code: '' @ formatInt32 c \<and>
             sublist (formatInt32 c) msg"
    using newTypeCode_other [of c] sublist_at_end by blast
next
  show "parseInt (formatInt32 c) = sint c" by (rule parseInt_formatInt32)
qed

theorem newTypeCode_three_cases_witness:
  "newTypeCode 16 = (16, None) \<and>
   newTypeCode (- 128) = (- 128, None) \<and>
   newTypeCode 19 = (0, Some (NewErrorMsg ErrNotImplemented ''Type code 19 not implemented'')) \<and>
   newTypeCode (- 1) = (0, Some (NewErrorMsg ErrNotImplemented ''Type code -1 not implemented'')) \<and>
   newTypeCode 999 = (0, Some (NewErrorMsg ErrBadValue ''Invalid numerical type code: 999'')) \<and>
   newTypeCode 0 = (0, Some (NewErrorMsg ErrBadValue ''Invalid numerical type code: 0''))"
  using newTypeCode_three_cases [of 16] newTypeCode_three_cases [of "- 128"]
    newTypeCode_three_cases [of 19] newTypeCode_three_cases [of "- 1"]
    newTypeCode_three_cases [of 999] newTypeCode_three_cases [of 0]
  by (simp add: formatInt32_examples)

text \<open>
  Claim C10. \<open>newTypeCode\<close> is total over all \<open>int32\<close> inputs and its result is
  exclusive: for every input it returns either a valid code (the input, one of the
  fourteen implemented or surrogate codes, none of which is 0) with a nil error, or the
  zero code 0 together with a non-nil error; it never returns a nonzero code alongside
  an error. The model is a total function whose every branch returns a pair, so there
  is no input on which it panics.
\<close>

theorem newTypeCode_exclusive:
  "((c \<in> set implementedCodes \<and> newTypeCode c = (c, None)) \<or>
    (c \<notin> set implementedCodes \<and> fst (newTypeCode c) = 0 \<and>
       (\<exists>e. snd (newTypeCode c) = Some e))) \<and>
   (snd (newTypeCode c) \<noteq> None \<longrightarrow> fst (newTypeCode c) = 0) \<and>
   (snd (newTypeCode c) = None \<longrightarrow> fst (newTypeCode c) \<noteq> 0) \<and>
   0 \<notin> set implementedCodes"
proof -
  have z: "0 \<notin> set implementedCodes" by (simp add: implementedCodes_set)
  show ?thesis
  proof (cases "c \<in> set implementedCodes")
    case True
    then have "newTypeCode c = (c, None)" by (rule newTypeCode_implemented)
    moreover from True z have "c \<noteq> 0" by auto
    ultimately show ?thesis using True z by simp
  next
    case False
    then show ?thesis using z by (simp add: newTypeCode_def)
  qed
qed

theorem newTypeCode_exclusive_witness:
  "newTypeCode 16 = (16, None) \<and> fst (newTypeCode 0) = 0 \<and> snd (newTypeCode 0) \<noteq> None \<and>
   fst (newTypeCode 127) = 0 \<and> snd (newTypeCode 127) \<noteq> None"
  using newTypeCode_exclusive [of 16] newTypeCode_exclusive [of 0]
    newTypeCode_exclusive [of 127]
  by (auto simp add: implementedCodes_set)

subsection \<open>The alias table\<close>

lemma String_table: "map typeCode_String implementedCodes = protocolNames"
  by (simp add: implementedCodes_def protocolNames_def typeCode_String_def typeCode_defs)

lemma aliasToTypeCode_table:
  "aliasToTypeCode =
     [''double'' \<mapsto> typeCodeDouble, ''string'' \<mapsto> typeCodeString,
      ''object'' \<mapsto> typeCodeObject, ''array'' \<mapsto> typeCodeArray,
      ''binData'' \<mapsto> typeCodeBinData, ''objectId'' \<mapsto> typeCodeObjectID,
      ''bool'' \<mapsto> typeCodeBool, ''date'' \<mapsto> typeCodeDate, ''null'' \<mapsto> typeCodeNull,
      ''regex'' \<mapsto> typeCodeRegex, ''int'' \<mapsto> typeCodeInt,
      ''timestamp'' \<mapsto> typeCodeTimestamp, ''long'' \<mapsto> typeCodeLong,
      ''number'' \<mapsto> typeCodeNumber]"
  by (simp add: aliasToTypeCode_def init_def typeCode_String_def typeCode_defs)

lemma dom_foldl_upd:
  "dom (foldl (\<lambda>m i. m(f i \<mapsto> i)) m xs) = dom m \<union> f ` set xs"
  by (induction xs arbitrary: m) auto

lemma init_implementedCodes:
  "init m = foldl (\<lambda>m i. m(typeCode_String i \<mapsto> i)) m implementedCodes"
  by (simp only: init_def implementedCodes_def)

lemma dom_aliasToTypeCode: "dom aliasToTypeCode = set protocolNames"
  unfolding aliasToTypeCode_def init_implementedCodes dom_foldl_upd String_table [symmetric]
  by simp

lemma distinct_protocolNames: "distinct protocolNames"
  by (simp add: protocolNames_def)

lemma roundtrip_all:
  "list_all (\<lambda>c. aliasToTypeCode (typeCode_String c) = Some c) implementedCodes"
  by (simp add: implementedCodes_def aliasToTypeCode_table typeCode_String_def typeCode_defs)

lemma roundtrip:
  "c \<in> set implementedCodes \<Longrightarrow> aliasToTypeCode (typeCode_String c) = Some c"
  using roundtrip_all by (simp add: list_all_iff)

lemma inj_on_String: "inj_on typeCode_String (set implementedCodes)"
  by (metis inj_onI roundtrip option.inject)

lemma aliasToTypeCode_Some:
  "aliasToTypeCode s = Some c \<longleftrightarrow> c \<in> set implementedCodes \<and> typeCode_String c = s"
proof
  assume a: "aliasToTypeCode s = Some c"
  then have "s \<in> dom aliasToTypeCode" by blast
  then have "s \<in> typeCode_String ` set implementedCodes"
    unfolding dom_aliasToTypeCode String_table [symmetric] by simp
  then obtain c' where c': "c' \<in> set implementedCodes" "typeCode_String c' = s" by blast
  with roundtrip [of c'] a have "c' = c" by simp
  with c' show "c \<in> set implementedCodes \<and> typeCode_String c = s" by simp
next
  assume "c \<in> set implementedCodes \<and> typeCode_String c = s"
  then show "aliasToTypeCode s = Some c" using roundtrip by blast
qed

lemma ran_aliasToTypeCode: "ran aliasToTypeCode = set implementedCodes"
  using aliasToTypeCode_Some roundtrip unfolding ran_def by blast

text \<open>
  Claim C4. For every valid (implemented or surrogate) type code \<open>c\<close>, converting \<open>c\<close>
  to its alias with \<open>typeCode.String\<close> and looking the alias up in \<open>aliasToTypeCode\<close>
  returns \<open>c\<close>; the table is the inverse of the code-to-alias mapping (an alias maps to
  \<open>c\<close> exactly when \<open>c\<close> is a valid code whose alias it is), and the mapping is a
  bijection between the valid codes and the keys of the table.
\<close>

theorem alias_roundtrip:
  "(c \<in> set implementedCodes \<longrightarrow> aliasToTypeCode (typeCode_String c) = Some c) \<and>
   (aliasToTypeCode s = Some d \<longleftrightarrow> d \<in> set implementedCodes \<and> typeCode_String d = s) \<and>
   bij_betw typeCode_String (set implementedCodes) (dom aliasToTypeCode)"
proof (intro conjI impI)
  assume "c \<in> set implementedCodes"
  then show "aliasToTypeCode (typeCode_String c) = Some c" by (rule roundtrip)
next
  show "aliasToTypeCode s = Some d \<longleftrightarrow> d \<in> set implementedCodes \<and> typeCode_String d = s"
    by (rule aliasToTypeCode_Some)
next
  show "bij_betw typeCode_String (set implementedCodes) (dom aliasToTypeCode)"
    unfolding bij_betw_def dom_aliasToTypeCode String_table [symmetric]
    using inj_on_String by simp
qed

theorem alias_roundtrip_witness:
  "typeCodeNumber \<in> set implementedCodes \<and>
   typeCode_String typeCodeNumber = ''number'' \<and>
   aliasToTypeCode ''number'' = Some (- 128) \<and>
   aliasToTypeCode ''objectId'' = Some 7"
  using alias_roundtrip [of typeCodeNumber "''number''" typeCodeNumber]
    alias_roundtrip [of typeCodeObjectID "''objectId''" typeCodeObjectID]
  by (simp add: implementedCodes_def typeCode_String_def typeCode_defs)

text \<open>
  Claim C9. After \<open>init\<close> has run, \<open>aliasToTypeCode\<close> contains exactly fourteen entries,
  one for each implemented or surrogate type code (double, string, object, array,
  binData, objectId, bool, date, null, regex, int, timestamp, long, number); the codes
  decimal (19), minKey (-1) and maxKey (127) have no entry, so looking up their aliases
  fails.
\<close>

theorem aliasToTypeCode_fourteen_entries:
  "card (dom aliasToTypeCode) = 14 \<and>
   dom aliasToTypeCode = set protocolNames \<and>
   map typeCode_String implementedCodes = protocolNames \<and>
   ran aliasToTypeCode = set implementedCodes \<and>
   typeCode_String typeCodeDecimal = ''decimal'' \<and> aliasToTypeCode ''decimal'' = None \<and>
   typeCode_String typeCodeMinKey = ''minKey'' \<and> aliasToTypeCode ''minKey'' = None \<and>
   typeCode_String typeCodeMaxKey = ''maxKey'' \<and> aliasToTypeCode ''maxKey'' = None \<and>
   typeCodeDecimal \<notin> ran aliasToTypeCode \<and> typeCodeMinKey \<notin> ran aliasToTypeCode \<and>
   typeCodeMaxKey \<notin> ran aliasToTypeCode"
proof -
  have "card (set protocolNames) = length protocolNames"
    by (rule distinct_card [OF distinct_protocolNames])
  then have "card (dom aliasToTypeCode) = 14"
    unfolding dom_aliasToTypeCode by (simp add: protocolNames_def)
  moreover have
    "typeCode_String typeCodeDecimal = ''decimal''" "aliasToTypeCode ''decimal'' = None"
    "typeCode_String typeCodeMinKey = ''minKey''" "aliasToTypeCode ''minKey'' = None"
    "typeCode_String typeCodeMaxKey = ''maxKey''" "aliasToTypeCode ''maxKey'' = None"
    by (simp_all add: aliasToTypeCode_table typeCode_String_def typeCode_defs)
  moreover have
    "typeCodeDecimal \<notin> ran aliasToTypeCode" "typeCodeMinKey \<notin> ran aliasToTypeCode"
    "typeCodeMaxKey \<notin> ran aliasToTypeCode"
    unfolding ran_aliasToTypeCode by (simp_all add: implementedCodes_def typeCode_defs)
  ultimately show ?thesis
    using dom_aliasToTypeCode String_table ran_aliasToTypeCode by simp
qed

text \<open>
  The aliases \<open>binData\<close> and \<open>objectId\<close> are keys of the table and contain a capital
  letter: not every alias is lowercase.
\<close>

theorem alias_binData_not_lowercase:
  "typeCodeBinData \<in> set implementedCodes \<and>
   typeCode_String typeCodeBinData = ''binData'' \<and>
   aliasToTypeCode ''binData'' = Some typeCodeBinData \<and>
   \<not> isLowercase (typeCode_String typeCodeBinData)"
  by (simp add: implementedCodes_def aliasToTypeCode_table typeCode_String_def typeCode_defs
        isUpper_def isLowercase_def)

lemma alias_letters_all:
  "list_all (\<lambda>c. isLower (hd (typeCode_String c)) \<and>
       list_all (\<lambda>ch. isLower ch \<or> isUpper ch) (typeCode_String c) \<and>
       (isLowercase (typeCode_String c) \<longleftrightarrow> c \<noteq> typeCodeBinData \<and> c \<noteq> typeCodeObjectID))
     implementedCodes"
  by (simp add: implementedCodes_def typeCode_String_def typeCode_defs isLower_def
        isUpper_def isLowercase_def)

lemma String_equations:
  "typeCode_String typeCodeDouble = ''double''" "typeCode_String typeCodeString = ''string''"
  "typeCode_String typeCodeObject = ''object''" "typeCode_String typeCodeArray = ''array''"
  "typeCode_String typeCodeBinData = ''binData''"
  "typeCode_String typeCodeObjectID = ''objectId''"
  "typeCode_String typeCodeBool = ''bool''" "typeCode_String typeCodeDate = ''date''"
  "typeCode_String typeCodeNull = ''null''" "typeCode_String typeCodeRegex = ''regex''"
  "typeCode_String typeCodeInt = ''int''" "typeCode_String typeCodeTimestamp = ''timestamp''"
  "typeCode_String typeCodeLong = ''long''" "typeCode_String typeCodeNumber = ''number''"
  by (simp_all add: typeCode_String_def typeCode_defs)

text \<open>
  Claim C7, amended. Every alias string produced by \<open>typeCode.String\<close> for an
  implemented or surrogate code is a key of the alias table that maps back to the code,
  and it is the protocol name of that code: \<open>double\<close> for 1, \<open>string\<close> for 2, \<open>object\<close>
  for 3, \<open>array\<close> for 4, \<open>binData\<close> for 5, \<open>objectId\<close> for 7, \<open>bool\<close> for 8, \<open>date\<close> for 9,
  \<open>null\<close> for 10, \<open>regex\<close> for 11, \<open>int\<close> for 16, \<open>timestamp\<close> for 17, \<open>long\<close> for 18 and
  \<open>number\<close> for -128, the spec's alias list in the order of the codes. Each is a word
  of letters that starts with a lowercase letter; it is entirely lowercase for every
  code except \<open>binData\<close> (5) and \<open>objectId\<close> (7), whose names are in lower camel case.
\<close>

theorem alias_protocol_names:
  "c \<in> set implementedCodes \<Longrightarrow>
     aliasToTypeCode (typeCode_String c) = Some c \<and>
     typeCode_String c \<in> set protocolNames \<and>
     isLower (hd (typeCode_String c)) \<and>
     list_all (\<lambda>ch. isLower ch \<or> isUpper ch) (typeCode_String c) \<and>
     (isLowercase (typeCode_String c) \<longleftrightarrow> c \<noteq> typeCodeBinData \<and> c \<noteq> typeCodeObjectID) \<and>
     map typeCode_String implementedCodes = protocolNames \<and>
     typeCode_String 1 = ''double'' \<and> typeCode_String 2 = ''string'' \<and>
     typeCode_String 3 = ''object'' \<and> typeCode_String 4 = ''array'' \<and>
     typeCode_String 5 = ''binData'' \<and> typeCode_String 7 = ''objectId'' \<and>
     typeCode_String 8 = ''bool'' \<and> typeCode_String 9 = ''date'' \<and>
     typeCode_String 10 = ''null'' \<and> typeCode_String 11 = ''regex'' \<and>
     typeCode_String 16 = ''int'' \<and> typeCode_String 17 = ''timestamp'' \<and>
     typeCode_String 18 = ''long'' \<and> typeCode_String (- 128) = ''number''"
proof -
  assume c: "c \<in> set implementedCodes"
  then have "typeCode_String c \<in> set (map typeCode_String implementedCodes)" by simp
  then have "typeCode_String c \<in> set protocolNames" by (simp only: String_table)
  moreover have "isLower (hd (typeCode_String c)) \<and>
     list_all (\<lambda>ch. isLower ch \<or> isUpper ch) (typeCode_String c) \<and>
     (isLowercase (typeCode_String c) \<longleftrightarrow> c \<noteq> typeCodeBinData \<and> c \<noteq> typeCodeObjectID)"
    using alias_letters_all c unfolding list_all_iff by blast
  moreover have
    "typeCode_String 1 = ''double'' \<and> typeCode_String 2 = ''string'' \<and>
     typeCode_String 3 = ''object'' \<and> typeCode_String 4 = ''array'' \<and>
     typeCode_String 5 = ''binData'' \<and> typeCode_String 7 = ''objectId'' \<and>
     typeCode_String 8 = ''bool'' \<and> typeCode_String 9 = ''date'' \<and>
     typeCode_String 10 = ''null'' \<and> typeCode_String 11 = ''regex'' \<and>
     typeCode_String 16 = ''int'' \<and> typeCode_String 17 = ''timestamp'' \<and>
     typeCode_String 18 = ''long'' \<and> typeCode_String (- 128) = ''number''"
    using String_equations by (simp add: typeCode_defs)
  ultimately show ?thesis using roundtrip [OF c] String_table by simp
qed

theorem alias_protocol_names_witness:
  "typeCodeDouble \<in> set implementedCodes \<and> isLowercase (typeCode_String typeCodeDouble) \<and>
   typeCodeObjectID \<in> set implementedCodes \<and> \<not> isLowercase (typeCode_String typeCodeObjectID) \<and>
   isLower (hd (typeCode_String typeCodeObjectID)) \<and>
   aliasToTypeCode (typeCode_String typeCodeObjectID) = Some typeCodeObjectID"
proof -
  have d: "typeCodeDouble \<in> set implementedCodes" and o: "typeCodeObjectID \<in> set implementedCodes"
    by (simp_all add: implementedCodes_def)
  show ?thesis
    using d o alias_protocol_names [OF d] alias_protocol_names [OF o]
    by (auto simp add: typeCode_defs)
qed

section \<open>Properties of the homogeneity check\<close>

subsection \<open>Labels\<close>

lemma elementLabel_nonempty: "elementLabel v = Some l \<Longrightarrow> l \<noteq> ''''"
  by (cases v) (auto split: if_splits)

lemma recognized_label: "recognized v \<longleftrightarrow> (\<exists>l. elementLabel v = Some l)"
  by (cases v) simp_all

lemma truncate_fixed:
  "r = of_int (if r < 0 then \<lceil>r\<rceil> else \<lfloor>r\<rfloor>) \<longleftrightarrow> r \<in> \<int>" for r :: rat
proof
  assume "r = of_int (if r < 0 then \<lceil>r\<rceil> else \<lfloor>r\<rfloor>)"
  then show "r \<in> \<int>" by (metis Ints_of_int)
next
  assume "r \<in> \<int>"
  then show "r = of_int (if r < 0 then \<lceil>r\<rceil> else \<lfloor>r\<rfloor>)" by (auto elim: Ints_cases)
qed

text \<open>
  Claim C2. For every \<open>float64\<close> value \<open>f\<close>, the type switch assigns \<open>f\<close> the label
  \<open>int\<close> if and only if \<open>f\<close> equals \<open>math.Trunc(f)\<close> and \<open>f\<close> is neither NaN nor an
  infinity, and the label \<open>double\<close> otherwise. So a finite float is \<open>int\<close> exactly when
  its value is an integer, NaN and the infinities are \<open>double\<close>, and \<open>int32\<close> values,
  \<open>int64\<close> values and integral floats all receive the label \<open>int\<close>.
\<close>

theorem float64_label_int_iff:
  "(elementLabel (Float64 f) = Some ''int'' \<longleftrightarrow>
      float64_eq f (Trunc f) \<and> \<not> IsNaN f \<and> \<not> IsInf f 0) \<and>
   elementLabel (Float64 f) =
      Some (if float64_eq f (Trunc f) \<and> \<not> IsNaN f \<and> \<not> IsInf f 0
            then ''int'' else ''double'') \<and>
   elementLabel (Float64 (Finite r)) = Some (if r \<in> \<int> then ''int'' else ''double'') \<and>
   elementLabel (Float64 NaN) = Some ''double'' \<and>
   elementLabel (Float64 PosInf) = Some ''double'' \<and>
   elementLabel (Float64 NegInf) = Some ''double'' \<and>
   elementLabel (Int32 n) = Some ''int'' \<and>
   elementLabel (Int64 m) = Some ''int''"
proof -
  have "elementLabel (Float64 (Finite r)) = Some (if r \<in> \<int> then ''int'' else ''double'')"
    using truncate_fixed [of r] by simp
  then show ?thesis by (simp add: float64_eq_def)
qed

theorem float64_label_int_iff_witness:
  "elementLabel (Float64 (Finite 5)) = Some ''int'' \<and>
   elementLabel (Float64 (Finite (11 / 2))) = Some ''double'' \<and>
   elementLabel (Float64 (Finite (- 3))) = Some ''int'' \<and>
   elementLabel (Int32 5) = Some ''int'' \<and> elementLabel (Int64 5) = Some ''int''"
proof -
  have i: "(5 :: rat) \<in> \<int>" "(- 3 :: rat) \<in> \<int>" by simp_all
  have "(11 / 2 :: rat) = of_int \<lfloor>11 / 2 :: rat\<rfloor> \<longleftrightarrow> False" by code_simp
  then have n: "(11 / 2 :: rat) \<notin> \<int>" using truncate_fixed [of "11 / 2"] by simp
  have a: "elementLabel (Float64 (Finite 5)) = Some (if (5 :: rat) \<in> \<int> then ''int'' else ''double'')"
    by (rule float64_label_int_iff [of "Finite 5" 5 5 5, THEN conjunct2, THEN conjunct2, THEN conjunct1])
  have b: "elementLabel (Float64 (Finite (11 / 2))) =
             Some (if (11 / 2 :: rat) \<in> \<int> then ''int'' else ''double'')"
    by (rule float64_label_int_iff [of "Finite 5" "11 / 2" 5 5, THEN conjunct2, THEN conjunct2, THEN conjunct1])
  have c: "elementLabel (Float64 (Finite (- 3))) =
             Some (if (- 3 :: rat) \<in> \<int> then ''int'' else ''double'')"
    by (rule float64_label_int_iff [of "Finite 5" "- 3" 5 5, THEN conjunct2, THEN conjunct2, THEN conjunct1])
  show ?thesis
    unfolding a b c using i n by simp
qed

subsection \<open>The loop\<close>

lemma loop_sameLabelFrom:
  "i \<le> length array \<Longrightarrow>
   hasSameTypeElements_loop array i prev = Some (sameLabelFrom prev (drop i array))"
proof (induction array i prev rule: hasSameTypeElements_loop.induct)
  case (1 array i prev)
  show ?case
  proof (cases "i < length array")
    case False
    then show ?thesis
      by (subst hasSameTypeElements_loop.simps) (simp add: Len_def)
  next
    case True
    then have d: "drop i array = array ! i # drop (Suc i) array"
      by (simp add: Cons_nth_drop_Suc)
    have g: "Get array i = Inr (array ! i)" using True by (simp add: Get_def)
    have unf: "hasSameTypeElements_loop array i prev =
      (case elementLabel (array ! i) of
         None \<Rightarrow> Some False
       | Some cur \<Rightarrow>
           if prev = '''' then hasSameTypeElements_loop array (i + 1) cur
           else if prev \<noteq> cur then Some False
           else hasSameTypeElements_loop array (i + 1) prev)"
      using True g by (subst hasSameTypeElements_loop.simps) (simp add: Len_def)
    have lt: "i < Len array" and le: "i + 1 \<le> length array"
      using True by (simp_all add: Len_def)
    show ?thesis
    proof (cases "elementLabel (array ! i)")
      case None
      then show ?thesis unfolding unf d by simp
    next
      case (Some cur)
      show ?thesis
      proof (cases "prev = ''''")
        case pe: True
        have "hasSameTypeElements_loop array (i + 1) cur =
                Some (sameLabelFrom cur (drop (i + 1) array))"
          by (rule "1.IH"(1) [OF lt g Some pe le])
        then show ?thesis unfolding unf d using Some pe by simp
      next
        case pne: False
        show ?thesis
        proof (cases "prev = cur")
          case eq: True
          then have nn: "\<not> prev \<noteq> cur" by simp
          have "hasSameTypeElements_loop array (i + 1) prev =
                  Some (sameLabelFrom prev (drop (i + 1) array))"
            by (rule "1.IH"(2) [OF lt g Some pne nn le])
          then show ?thesis unfolding unf d using Some pne eq by simp
        next
          case False
          then show ?thesis unfolding unf d using Some pne by simp
        qed
      qed
    qed
  qed
qed

lemma sameLabelFrom_label:
  "prev \<noteq> '''' \<Longrightarrow> sameLabelFrom prev xs = (\<forall>x \<in> set xs. elementLabel x = Some prev)"
  by (induction xs) (auto split: option.splits)

lemma sameLabelFrom_start:
  "sameLabelFrom '''' (x # xs) =
     (\<exists>l. elementLabel x = Some l \<and> (\<forall>y \<in> set xs. elementLabel y = Some l))"
proof (cases "elementLabel x")
  case None
  then show ?thesis by simp
next
  case (Some cur)
  then have "cur \<noteq> ''''" by (rule elementLabel_nonempty)
  then show ?thesis using Some by (simp add: sameLabelFrom_label)
qed

lemma hasSameTypeElements_eq:
  "hasSameTypeElements array = Some (sameLabelFrom '''' array)"
  using loop_sameLabelFrom [of 0 array "''''"] by (simp add: hasSameTypeElements_def)

lemma hasSameTypeElements_examples:
  "hasSameTypeElements [Int32 1, Int64 2, Float64 (Finite 3)] = Some True"
  "hasSameTypeElements [Int32 1, Float64 (Finite (3 / 2))] = Some False"
  "hasSameTypeElements [Int32 2, Float64 (Finite (5 / 2))] = Some False"
  "hasSameTypeElements [String ''a''] = Some True"
  "hasSameTypeElements [Int32 1, Other ''uint8''] = Some False"
  by code_simp+

text \<open>
  Claim C3. On sequences of values of the document model (the thirteen kinds that the
  type switch names), \<open>hasSameTypeElements\<close> returns true for the empty sequence and for
  every singleton sequence; for every sequence of two or more elements it returns true
  if and only if every element's label equals the first element's label. In particular
  \<open>[int32(1), int64(2), float64(3.0)]\<close> is homogeneous and \<open>[int32(1), float64(1.5)]\<close>
  is not. For every non-empty array, of any elements, the result is the returned
  boolean that says whether all its elements have one and the same label.
\<close>

theorem hasSameTypeElements_recognized:
  "hasSameTypeElements [] = Some True \<and>
   (recognized x \<longrightarrow> hasSameTypeElements [x] = Some True) \<and>
   (2 \<le> length array \<and> (\<forall>y \<in> set array. recognized y) \<longrightarrow>
      hasSameTypeElements array =
        Some (\<forall>y \<in> set array. elementLabel y = elementLabel (hd array))) \<and>
   (array \<noteq> [] \<longrightarrow>
      hasSameTypeElements array =
        Some (\<exists>l. \<forall>y \<in> set array. elementLabel y = Some l)) \<and>
   hasSameTypeElements [Int32 1, Int64 2, Float64 (Finite 3)] = Some True \<and>
   hasSameTypeElements [Int32 1, Float64 (Finite (3 / 2))] = Some False"
proof (intro conjI impI)
  show "hasSameTypeElements [] = Some True" by (simp add: hasSameTypeElements_eq)
next
  assume "recognized x"
  then show "hasSameTypeElements [x] = Some True"
    unfolding hasSameTypeElements_eq sameLabelFrom_start recognized_label by simp
next
  assume a: "2 \<le> length array \<and> (\<forall>y \<in> set array. recognized y)"
  then obtain z zs where arr: "array = z # zs" by (cases array) auto
  with a have "recognized z" by simp
  then obtain l where l: "elementLabel z = Some l" unfolding recognized_label by blast
  show "hasSameTypeElements array =
          Some (\<forall>y \<in> set array. elementLabel y = elementLabel (hd array))"
    unfolding hasSameTypeElements_eq arr sameLabelFrom_start using l by auto
next
  assume "array \<noteq> []"
  then obtain z zs where arr: "array = z # zs" by (cases array) auto
  show "hasSameTypeElements array = Some (\<exists>l. \<forall>y \<in> set array. elementLabel y = Some l)"
    unfolding hasSameTypeElements_eq arr sameLabelFrom_start by auto
next
  show "hasSameTypeElements [Int32 1, Int64 2, Float64 (Finite 3)] = Some True"
    by (rule hasSameTypeElements_examples)
next
  show "hasSameTypeElements [Int32 1, Float64 (Finite (3 / 2))] = Some False"
    by (rule hasSameTypeElements_examples)
qed

theorem hasSameTypeElements_recognized_witness:
  "recognized (String ''a'') \<and> hasSameTypeElements [String ''a''] = Some True \<and>
   2 \<le> length [Int32 1, Int64 2] \<and> recognized (Int32 1) \<and> recognized (Int64 2) \<and>
   hasSameTypeElements [Int32 1, Int64 2] = Some True \<and>
   2 \<le> length [Int32 1, String ''a''] \<and> recognized (Int32 1) \<and> recognized (String ''a'') \<and>
   hasSameTypeElements [Int32 1, String ''a''] = Some False"
  using hasSameTypeElements_recognized [of "String ''a''" "[Int32 1, Int64 2]"]
    hasSameTypeElements_recognized [of "String ''a''" "[Int32 1, String ''a'']"]
  by simp

text \<open>
  Claim C8. \<open>hasSameTypeElements\<close> returns false whenever any element of the array has a
  runtime kind outside the thirteen recognized kinds, including when that element is
  the only element: the result is the returned value \<open>false\<close>, not a panic.
\<close>

theorem unrecognized_element_false:
  "\<exists>y \<in> set array. \<not> recognized y \<Longrightarrow> hasSameTypeElements array = Some False"
proof -
  assume "\<exists>y \<in> set array. \<not> recognized y"
  then obtain y where y: "y \<in> set array" "\<not> recognized y" by blast
  then obtain z zs where arr: "array = z # zs" by (cases array) auto
  have "\<not> sameLabelFrom '''' (z # zs)"
  proof
    assume "sameLabelFrom '''' (z # zs)"
    then obtain l where "elementLabel z = Some l" "\<forall>w \<in> set zs. elementLabel w = Some l"
      unfolding sameLabelFrom_start by blast
    with y arr have "elementLabel y = Some l" by auto
    with y show False unfolding recognized_label by simp
  qed
  then show ?thesis by (simp add: hasSameTypeElements_eq arr)
qed

theorem unrecognized_element_false_witness:
  "(\<exists>y \<in> set [Int32 1, Int64 2, Other ''uint8'']. \<not> recognized y) \<and>
   hasSameTypeElements [Int32 1, Int64 2, Other ''uint8''] = Some False \<and>
   (\<exists>y \<in> set [Other ''uint8'']. \<not> recognized y) \<and>
   hasSameTypeElements [Other ''uint8''] = Some False"
proof -
  have a: "\<exists>y \<in> set [Int32 1, Int64 2, Other ''uint8'']. \<not> recognized y" by simp
  have b: "\<exists>y \<in> set [Other ''uint8'']. \<not> recognized y" by simp
  show ?thesis
    using a b unrecognized_element_false [OF a] unrecognized_element_false [OF b] by simp
qed

section \<open>Properties of predicate evaluation\<close>

lemma eval_nestedNot:
  "eval leaf (nestedNot n P) D = (if even n then eval leaf P D else \<not> eval leaf P D)"
  by (induction n) simp_all

text \<open>
  Claim C5. \<open>$not\<close> inverts the boolean of its child. For every predicate \<open>P\<close> and every
  document \<open>D\<close>, evaluating \<open>Not(Not(P))\<close> on \<open>D\<close> yields the same boolean as evaluating
  \<open>P\<close> on \<open>D\<close>, and evaluating \<open>Not(Not(Not(P)))\<close> yields the same boolean as evaluating
  \<open>Not(P)\<close>, the inverse of \<open>P\<close>; \<open>n\<close> nested negations are the identity for even \<open>n\<close>
  and a single inversion for odd \<open>n\<close>.
\<close>

theorem negation_parity:
  "eval leaf (Negation P) D = (\<not> eval leaf P D) \<and>
   eval leaf (Negation (Negation P)) D = eval leaf P D \<and>
   eval leaf (Negation (Negation (Negation P))) D = eval leaf (Negation P) D \<and>
   eval leaf (Negation (Negation (Negation P))) D = (\<not> eval leaf P D) \<and>
   eval leaf (nestedNot n P) D = (if even n then eval leaf P D else \<not> eval leaf P D) \<and>
   eval leaf (nestedNot n P) D = (if even n then eval leaf P D else eval leaf (Negation P) D)"
  by (simp add: eval_nestedNot)

theorem negation_parity_witness:
  "eval (\<lambda>p d. True) (Negation (Comparison ''last_name'' Eq (String ''GUINESS''))) [] = False \<and>
   eval (\<lambda>p d. True) (nestedNot 3 (Comparison ''last_name'' Eq (String ''GUINESS''))) [] = False \<and>
   eval (\<lambda>p d. True) (nestedNot 2 (Comparison ''last_name'' Eq (String ''GUINESS''))) [] = True \<and>
   eval (\<lambda>p d. True) (nestedNot 3 (Comparison ''last_name'' Eq (String ''GUINESS''))) [] =
     eval (\<lambda>p d. True) (Negation (Comparison ''last_name'' Eq (String ''GUINESS''))) []"
  using negation_parity [of "\<lambda>p d. True" "Comparison ''last_name'' Eq (String ''GUINESS'')" "[]" 3]
    negation_parity [of "\<lambda>p d. True" "Comparison ''last_name'' Eq (String ''GUINESS'')" "[]" 2]
  by simp

text \<open>
  Claim C6. For every list of child predicates and every document, evaluating \<open>$nor\<close>
  over the children yields the same boolean as evaluating the negation of \<open>$or\<close> over
  the same children; for the children \<open>[A, B]\<close> this is \<open>\<not> (eval A \<or> eval B)\<close>; and the
  compiler produces \<open>Negation (LogicalOr children)\<close> for the key \<open>$nor\<close>, where
  \<open>children\<close> are the compiled sub-filters of its array.
\<close>

theorem nor_is_not_or:
  "eval leaf (LogicalNor children) D = eval leaf (Negation (LogicalOr children)) D \<and>
   eval leaf (LogicalNor [A, B]) D = (\<not> (eval leaf A D \<or> eval leaf B D)) \<and>
   eval leaf (Negation (LogicalOr [A, B])) D = (\<not> (eval leaf A D \<or> eval leaf B D)) \<and>
   (compileChildren field subs = Inr cs \<longrightarrow>
      compileEntry field ''$nor'' (Array subs) = Inr (Negation (LogicalOr cs)))"
  by (simp add: isOperatorKey_def)

theorem nor_is_not_or_witness:
  "compileChildren (\<lambda>k v. Inr (Comparison k Eq v))
      [Document [(''actor_id'', Int32 2)], Document [(''first_name'', String ''PENELOPE'')]] =
     Inr [LogicalAnd [Comparison ''actor_id'' Eq (Int32 2)],
          LogicalAnd [Comparison ''first_name'' Eq (String ''PENELOPE'')]] \<and>
   compileEntry (\<lambda>k v. Inr (Comparison k Eq v)) ''$nor''
      (Array [Document [(''actor_id'', Int32 2)], Document [(''first_name'', String ''PENELOPE'')]]) =
     Inr (Negation (LogicalOr
       [LogicalAnd [Comparison ''actor_id'' Eq (Int32 2)],
        LogicalAnd [Comparison ''first_name'' Eq (String ''PENELOPE'')]]))"
proof -
  have c: "compileChildren (\<lambda>k v. Inr (Comparison k Eq v))
      [Document [(''actor_id'', Int32 2)], Document [(''first_name'', String ''PENELOPE'')]] =
     Inr [LogicalAnd [Comparison ''actor_id'' Eq (Int32 2)],
          LogicalAnd [Comparison ''first_name'' Eq (String ''PENELOPE'')]]"
    by (simp add: isOperatorKey_def)
  show ?thesis
    using c nor_is_not_or [where field = "\<lambda>k v. Inr (Comparison k Eq v)"
        and subs = "[Document [(''actor_id'', Int32 2)], Document [(''first_name'', String ''PENELOPE'')]]"
        and cs = "[LogicalAnd [Comparison ''actor_id'' Eq (Int32 2)],
          LogicalAnd [Comparison ''first_name'' Eq (String ''PENELOPE'')]]"]
    by (simp del: compileEntry.simps compileChildren.simps)
qed

end
